theory Spec2Isabelle
  imports Complex_Main "HOL-Library.Sublist" "HOL-Library.Multiset"
begin

section \<open>Requests and responses\<close>

text \<open>
  The part of an Express request the read-path layer looks at: \<open>req.method\<close>,
  \<open>req.originalUrl\<close>, \<open>req.params.id\<close> and \<open>req.user\<close> (set by the
  authentication middleware; absent for an anonymous caller). Of the user document only
  \<open>id\<close> and \<open>role\<close> are read.
\<close>

record user_doc =
  uid :: string
  urole :: string

record request =
  req_method :: string
  req_originalUrl :: string
  req_params_id :: string
  req_user :: "user_doc option"

text \<open>
  A handler answers with \<open>res.status(c).json(data)\<close>; \<open>c\<close> is 200 when
  \<open>status\<close> is not called. The cache middleware adds three headers.
\<close>

record 'd reply =
  statusCode :: nat
  data :: 'd

datatype cache_status = HIT | MISS

record 'd response =
  res_status :: nat
  res_body :: 'd
  x_cache_status :: "cache_status option"
  x_cache_key :: "string option"
  cache_control_max_age :: "nat option"

section \<open>The Redis client\<close>

text \<open>
  Redis is an external service. The model keeps, per key, the stored text and the instant
  (in seconds) at which it expires; an expired entry is invisible. Each of the four commands
  the program issues can be made to reject (the \<open>*_fails\<close> flags), which is what an
  unreachable backend looks like to \<open>await\<close>.
\<close>

datatype redis_error = RedisError

record redis_client =
  entries :: "(string \<times> string \<times> nat) list"
  get_fails :: bool
  set_fails :: bool
  keys_fails :: bool
  del_fails :: bool

text \<open>
  Glob matching of \<open>KEYS\<close>: \<open>*\<close> matches any run of characters, \<open>?\<close> one
  character, a backslash takes the next character literally. Bracket classes are left out: no
  pattern built below from a route contains one.
\<close>

fun glob :: "string \<Rightarrow> string \<Rightarrow> bool" where
  "glob [] s = (s = [])"
| "glob (p # ps) s =
     (if p = CHR ''*'' then
        (glob ps s \<or> (case s of [] \<Rightarrow> False | c # t \<Rightarrow> glob (p # ps) t))
      else if p = CHR ''?'' then
        (case s of [] \<Rightarrow> False | c # t \<Rightarrow> glob ps t)
      else if p = CHR 0x5C \<and> ps \<noteq> [] then
        (case s of [] \<Rightarrow> False | c # t \<Rightarrow> c = hd ps \<and> glob (tl ps) t)
      else
        (case s of [] \<Rightarrow> False | c # t \<Rightarrow> c = p \<and> glob ps t))"

definition live :: "nat \<Rightarrow> string \<times> string \<times> nat \<Rightarrow> bool" where
  "live now e = (now < snd (snd e))"

definition redis_get :: "nat \<Rightarrow> redis_client \<Rightarrow> string \<Rightarrow> redis_error + string option" where
  "redis_get now rc k =
     (if get_fails rc then Inl RedisError
      else Inr (case map_of (entries rc) k of
                  None \<Rightarrow> None
                | Some (v, expiry) \<Rightarrow> if now < expiry then Some v else None))"

definition redis_setEx ::
  "nat \<Rightarrow> redis_client \<Rightarrow> string \<Rightarrow> nat \<Rightarrow> string \<Rightarrow> redis_error + redis_client" where
  "redis_setEx now rc k ttl v =
     (if set_fails rc \<or> ttl = 0 then Inl RedisError
      else Inr (rc\<lparr>entries := (k, v, now + ttl) # filter (\<lambda>e. fst e \<noteq> k) (entries rc)\<rparr>))"

definition redis_keys :: "nat \<Rightarrow> redis_client \<Rightarrow> string \<Rightarrow> redis_error + string list" where
  "redis_keys now rc pattern =
     (if keys_fails rc then Inl RedisError
      else Inr (map fst (filter (\<lambda>e. live now e \<and> glob pattern (fst e)) (entries rc))))"

definition redis_del :: "redis_client \<Rightarrow> string list \<Rightarrow> redis_error + redis_client" where
  "redis_del rc ks =
     (if del_fails rc then Inl RedisError
      else Inr (rc\<lparr>entries := filter (\<lambda>e. fst e \<notin> set ks) (entries rc)\<rparr>))"

section \<open>middleware/cache.js\<close>

definition generateCacheKey :: "request \<Rightarrow> string \<Rightarrow> string" where
  "generateCacheKey req keyPrefix =
     (let url = req_originalUrl req;
          userId = (case req_user req of Some u \<Rightarrow> uid u | None \<Rightarrow> ''anonymous'');
          userRole = (case req_user req of Some u \<Rightarrow> urole u | None \<Rightarrow> ''guest'')
      in keyPrefix @ '':'' @ userRole @ '':'' @ userId @ '':'' @ url)"

text \<open>
  \<open>cacheResponse\<close>: \<open>JSON.stringify\<close> and \<open>setEx\<close> run inside one
  \<open>try\<close>; whatever they throw is logged and dropped. \<open>stringify\<close> is the JSON
  encoder, \<open>None\<close> where it throws or yields no text.
\<close>

definition cacheResponse ::
  "('d \<Rightarrow> string option) \<Rightarrow> nat \<Rightarrow> redis_client \<Rightarrow> string \<Rightarrow> 'd \<Rightarrow> nat \<Rightarrow> redis_client" where
  "cacheResponse stringify now redisClient key d ttl =
     (case stringify d of
        None \<Rightarrow> redisClient
      | Some text \<Rightarrow>
          (case redis_setEx now redisClient key ttl text of
             Inl err \<Rightarrow> redisClient
           | Inr rc' \<Rightarrow> rc'))"

text \<open>
  \<open>next()\<close> with \<open>res.json\<close> untouched: the downstream handler runs against the
  document store and its answer goes out as it is.
\<close>

definition next_handler ::
  "redis_client option \<Rightarrow> request \<Rightarrow> (request \<Rightarrow> 'db \<Rightarrow> 'd reply \<times> 'db) \<Rightarrow> 'db
     \<Rightarrow> 'd response \<times> redis_client option \<times> 'db" where
  "next_handler client req handler db =
     (let (r, db') = handler req db
      in (\<lparr>res_status = statusCode r, res_body = data r, x_cache_status = None,
           x_cache_key = None, cache_control_max_age = None\<rparr>, client, db'))"

text \<open>
  The middleware returned by \<open>cache(ttl, keyPrefix)\<close>. \<open>parse\<close> is
  \<open>JSON.parse\<close> (\<open>None\<close> where it throws), \<open>client\<close> is what
  \<open>getRedisClient()\<close> returns, \<open>now\<close> the time of the request. The result is the
  response sent, the Redis state and the document store afterwards.
\<close>

definition cache ::
  "nat \<Rightarrow> string \<Rightarrow> (string \<Rightarrow> 'd option) \<Rightarrow> ('d \<Rightarrow> string option) \<Rightarrow> nat
     \<Rightarrow> redis_client option \<Rightarrow> request \<Rightarrow> (request \<Rightarrow> 'db \<Rightarrow> 'd reply \<times> 'db) \<Rightarrow> 'db
     \<Rightarrow> 'd response \<times> redis_client option \<times> 'db" where
  "cache ttl keyPrefix parse stringify now client req handler db =
     (if req_method req \<noteq> ''GET'' then next_handler client req handler db
      else case client of
        None \<Rightarrow> next_handler client req handler db
      | Some redisClient \<Rightarrow>
          (let cacheKey = generateCacheKey req keyPrefix in
           case redis_get now redisClient cacheKey of
             Inl err \<Rightarrow> next_handler client req handler db
           | Inr cachedData \<Rightarrow>
               (case cachedData of
                  Some (c # cs) \<Rightarrow>
                    (case parse (c # cs) of
                       None \<Rightarrow> next_handler client req handler db
                     | Some parsedData \<Rightarrow>
                         (\<lparr>res_status = 200, res_body = parsedData,
                           x_cache_status = Some HIT, x_cache_key = Some cacheKey,
                           cache_control_max_age = Some ttl\<rparr>, client, db))
                | _ \<Rightarrow>
                    (let (r, db') = handler req db;
                         rc' = cacheResponse stringify now redisClient cacheKey (data r) ttl
                     in (\<lparr>res_status = statusCode r, res_body = data r,
                          x_cache_status = Some MISS, x_cache_key = Some cacheKey,
                          cache_control_max_age = Some ttl\<rparr>, Some rc', db')))))"

definition clearCache :: "nat \<Rightarrow> redis_client option \<Rightarrow> string \<Rightarrow> redis_client option" where
  "clearCache now client pattern =
     (case client of
        None \<Rightarrow> None
      | Some redisClient \<Rightarrow>
          (case redis_keys now redisClient pattern of
             Inl err \<Rightarrow> Some redisClient
           | Inr ks \<Rightarrow>
               if length ks > 0 then
                 (case redis_del redisClient ks of
                    Inl err \<Rightarrow> Some redisClient
                  | Inr rc' \<Rightarrow> Some rc')
               else Some redisClient))"

definition clearRouteCache :: "nat \<Rightarrow> redis_client option \<Rightarrow> string list \<Rightarrow> redis_client option" where
  "clearRouteCache now client routes =
     (case client of
        None \<Rightarrow> None
      | Some redisClient \<Rightarrow>
          fold (\<lambda>route c. clearCache now c (''cache:*:*:'' @ route @ ''*'')) routes client)"

text \<open>The three instances the routes mount, with the default TTLs.\<close>

definition cacheTrending where "cacheTrending = cache 600 ''trending''"
definition cacheBlog where "cacheBlog = cache 300 ''blog''"
definition cacheBlogList where "cacheBlogList = cache 300 ''blogs''"



section \<open>JavaScript values\<close>

text \<open>
  A JavaScript string that the code inspects character by character (a query value, a search
  term, the text fields of a blog) is a list of characters, each given by its code point;
  \<open>ustr\<close> gives the characters of an ASCII literal. White space is the set that
  \<open>trim\<close>, \<open>parseInt\<close> and \<open>ToNumber\<close> strip: the ECMAScript
  \<open>WhiteSpace\<close> and \<open>LineTerminator\<close> code points.
\<close>

type_synonym ustring = "nat list"

definition ustr :: "string \<Rightarrow> ustring" where
  "ustr s = map of_char s"

definition isWhiteSpace :: "nat \<Rightarrow> bool" where
  "isWhiteSpace c =
     (c \<in> set [9, 10, 11, 12, 13, 32, 160, 5760, 8232, 8233, 8239, 8287, 12288, 65279]
      \<or> (8192 \<le> c \<and> c \<le> 8202))"

definition isDigit :: "nat \<Rightarrow> bool" where
  "isDigit c = (48 \<le> c \<and> c \<le> 57)"

definition isHexDigit :: "nat \<Rightarrow> bool" where
  "isHexDigit c = ((48 \<le> c \<and> c \<le> 57) \<or> (65 \<le> c \<and> c \<le> 70) \<or> (97 \<le> c \<and> c \<le> 102))"

definition digitValue :: "nat \<Rightarrow> int" where
  "digitValue c = (if c \<le> 57 then int c - 48 else if c \<le> 70 then int c - 55 else int c - 87)"

definition mathInt :: "int \<Rightarrow> ustring \<Rightarrow> int" where
  "mathInt radix ds = foldl (\<lambda>a c. a * radix + digitValue c) 0 ds"

definition trimStart :: "ustring \<Rightarrow> ustring" where
  "trimStart s = dropWhile isWhiteSpace s"

definition trim :: "ustring \<Rightarrow> ustring" where
  "trim s = rev (dropWhile isWhiteSpace (rev (dropWhile isWhiteSpace s)))"

text \<open>
  Numbers are doubles. The model keeps the values it can follow exactly: \<open>NaN\<close>, the
  infinities, and the integers of magnitude at most \<open>2^53\<close>, on which addition,
  subtraction and multiplication are exact as long as the result stays in that range. Where a
  computation leaves the range (and a double would round) the model gives \<open>None\<close>:
  outside the model.
\<close>

datatype jsnum = NaN | Fin int | PosInf | NegInf

definition exact :: "int \<Rightarrow> jsnum option" where
  "exact n = (if \<bar>n\<bar> \<le> 9007199254740992 then Some (Fin n) else None)"

text \<open>
  \<open>parseInt(s)\<close> with no radix: leading white space and one sign are skipped, a
  \<open>0x\<close> prefix selects base 16, the longest run of digits is read, and no digit at all
  gives \<open>NaN\<close>.
\<close>

definition parseInt_digits :: "int \<Rightarrow> ustring \<Rightarrow> jsnum option" where
  "parseInt_digits sign s =
     (if take 2 s = ustr ''0x'' \<or> take 2 s = ustr ''0X'' then
        (let z = takeWhile isHexDigit (drop 2 s)
         in if z = [] then Some NaN else exact (sign * mathInt 16 z))
      else
        (let z = takeWhile isDigit s
         in if z = [] then Some NaN else exact (sign * mathInt 10 z)))"

definition parseInt :: "ustring \<Rightarrow> jsnum option" where
  "parseInt str =
     (case trimStart str of
        [] \<Rightarrow> Some NaN
      | c # cs \<Rightarrow>
          if c = 45 then parseInt_digits (- 1) cs
          else if c = 43 then parseInt_digits 1 cs
          else parseInt_digits 1 (c # cs))"

text \<open>
  \<open>ToNumber(s)\<close>, the conversion behind \<open>page < totalPages\<close> when \<open>page\<close> is a
  string. Modelled where the answer is an integer or \<open>NaN\<close>: the empty string is 0, a
  signed run of decimal digits is its value, and a text that no numeric literal can begin with,
  or whose digits are followed by a character no literal can continue with, is \<open>NaN\<close>.
  For the remaining forms (fraction, exponent, radix prefix, \<open>Infinity\<close>) the result is
  \<open>None\<close>.
\<close>

definition toNumber_unsigned :: "int \<Rightarrow> ustring \<Rightarrow> jsnum option" where
  "toNumber_unsigned sign s =
     (case s of
        [] \<Rightarrow> Some NaN
      | c # cs \<Rightarrow>
          if isDigit c then
            (case dropWhile isDigit s of
               [] \<Rightarrow> exact (sign * mathInt 10 s)
             | d # ds \<Rightarrow> if d \<in> set (ustr ''.eExXoObB'') then None else Some NaN)
          else if c = 46 \<or> c = 73 then None
          else Some NaN)"

definition toNumber :: "ustring \<Rightarrow> jsnum option" where
  "toNumber str =
     (case trim str of
        [] \<Rightarrow> Some (Fin 0)
      | c # cs \<Rightarrow>
          if c = 45 then toNumber_unsigned (- 1) cs
          else if c = 43 then toNumber_unsigned 1 cs
          else toNumber_unsigned 1 (c # cs))"

fun js_lt :: "jsnum \<Rightarrow> jsnum \<Rightarrow> bool" where
  "js_lt NaN y = False"
| "js_lt x NaN = False"
| "js_lt (Fin a) (Fin b) = (a < b)"
| "js_lt (Fin a) PosInf = True"
| "js_lt NegInf (Fin b) = True"
| "js_lt NegInf PosInf = True"
| "js_lt x y = False"

fun js_sub :: "jsnum \<Rightarrow> int \<Rightarrow> jsnum option" where
  "js_sub (Fin a) k = exact (a - k)"
| "js_sub x k = Some x"

fun js_mul :: "jsnum \<Rightarrow> jsnum \<Rightarrow> jsnum option" where
  "js_mul (Fin a) (Fin b) = exact (a * b)"
| "js_mul NaN (Fin b) = Some NaN"
| "js_mul (Fin a) NaN = Some NaN"
| "js_mul NaN NaN = Some NaN"
| "js_mul x y = None"

text \<open>
  \<open>Math.ceil(total / limitNum)\<close> for a count \<open>cnt\<close>. With \<open>0 \<le> cnt\<close> and
  \<open>cnt + |l| \<le> 2^52\<close> the rounded quotient lies on the same side of every integer as
  the exact one, so the result is the integer ceiling; a zero divisor gives \<open>NaN\<close> or
  infinity.
\<close>

fun ceil_div :: "int \<Rightarrow> jsnum \<Rightarrow> jsnum option" where
  "ceil_div cnt (Fin l) =
     (if 0 \<le> cnt \<and> cnt + \<bar>l\<bar> \<le> 4503599627370496 then
        (if l = 0 then (if cnt = 0 then Some NaN else Some PosInf)
         else Some (Fin (- ((- cnt) div l))))
      else None)"
| "ceil_div cnt NaN = (if 0 \<le> cnt \<and> cnt \<le> 4503599627370496 then Some NaN else None)"
| "ceil_div cnt x = None"

section \<open>models/Blog.js\<close>

text \<open>
  A blog document, with the fields this layer reads. \<open>blog_id\<close> and \<open>author\<close>
  hold the text \<open>toString()\<close> gives for the ObjectId. \<open>likes\<close> holds the ids of
  the users who liked, \<open>comments\<close> pairs of author id and text, \<open>publishedAt\<close> a
  time in milliseconds, absent until the blog is first published; \<open>views\<close> is a whole
  number. The store is the blog collection and the ids of the documents of the user
  collection.
\<close>

record blog =
  blog_id :: string
  title :: ustring
  content :: ustring
  excerpt :: "ustring option"
  author :: string
  tags :: "ustring list"
  category :: ustring
  status :: string
  views :: nat
  likes :: "string list"
  comments :: "(string \<times> ustring) list"
  publishedAt :: "int option"

record database =
  blogs :: "blog list"
  users :: "string list"

datatype thrown = CastError | MongoServerError | TypeError




text \<open>
  \<open>daysAgo\<close>: \<open>new Date()\<close> followed by \<open>setDate(getDate() - timeframe)\<close>.
  \<open>setDate\<close> works on the local calendar: the time value is taken to local time, moved
  back by \<open>timeframe\<close> days of 86400000 ms (the same clock time on the earlier date) and
  taken back to UTC. The host's zone is the parameter \<open>tza\<close>, the offset
  \<open>LocalTZA(t, isUTC)\<close> of ECMAScript. A result outside the range of \<open>Date\<close> is an
  invalid date, which is outside the model.
\<close>

definition daysAgo :: "(int \<Rightarrow> bool \<Rightarrow> int) \<Rightarrow> int \<Rightarrow> int \<Rightarrow> int option" where
  "daysAgo tza now timeframe =
     (let local = now + tza now True - timeframe * 86400000;
          t = local - tza local False
      in if \<bar>now\<bar> \<le> 8640000000000000 \<and> \<bar>timeframe\<bar> \<le> 100000000
            \<and> \<bar>local\<bar> \<le> 9007199254740992 \<and> \<bar>t\<bar> \<le> 8640000000000000
         then Some t else None)"

text \<open>
  The aggregation pipeline of \<open>findTrending\<close>, stage by stage. \<open>$sort\<close> orders by
  \<open>trendingScore\<close> and nothing else; what MongoDB promises of it is that the documents
  come out rearranged in descending order of the key, the order among equal keys being left
  open. The stage is therefore the parameter \<open>sortStage\<close>, and \<open>sort_contract\<close>
  says what every admissible one does. \<open>$limit\<close> rejects a limit that is not positive.
  \<open>$lookup\<close> followed by \<open>$unwind\<close> drops a document whose author has no user
  document. \<open>limit\<close> and \<open>timeframe\<close> are the numbers the controller passes; a
  \<open>NaN\<close> or an infinity among them, and a score beyond \<open>2^53\<close>, are outside the
  model.
\<close>

record trending_doc =
  doc :: blog
  likesCount :: nat
  commentsCount :: nat
  trendingScore :: nat

definition match_stage :: "int \<Rightarrow> blog \<Rightarrow> bool" where
  "match_stage bound b =
     (status b = ''published'' \<and>
      (case publishedAt b of None \<Rightarrow> False | Some p \<Rightarrow> bound \<le> p))"

definition addFields_stage :: "blog \<Rightarrow> trending_doc" where
  "addFields_stage b =
     \<lparr>doc = b, likesCount = length (likes b), commentsCount = length (comments b),
      trendingScore = views b + length (likes b) * 5 + length (comments b) * 10\<rparr>"

definition descending :: "trending_doc list \<Rightarrow> bool" where
  "descending ds = sorted_wrt (\<lambda>a b. trendingScore b \<le> trendingScore a) ds"

definition sort_contract :: "(trending_doc list \<Rightarrow> trending_doc list) \<Rightarrow> bool" where
  "sort_contract sortStage = (\<forall>ds. mset (sortStage ds) = mset ds \<and> descending (sortStage ds))"

definition lookup_unwind_stage :: "string list \<Rightarrow> trending_doc list \<Rightarrow> trending_doc list" where
  "lookup_unwind_stage us ds = filter (\<lambda>d. author (doc d) \<in> set us) ds"

definition candidates :: "int \<Rightarrow> database \<Rightarrow> trending_doc list" where
  "candidates bound db = map addFields_stage (filter (match_stage bound) (blogs db))"

definition findTrending ::
  "(trending_doc list \<Rightarrow> trending_doc list) \<Rightarrow> (int \<Rightarrow> bool \<Rightarrow> int) \<Rightarrow> jsnum \<Rightarrow> jsnum \<Rightarrow> int
     \<Rightarrow> database \<Rightarrow> (thrown + trending_doc list) option" where
  "findTrending sortStage tza limit timeframe now db =
     (case (limit, timeframe) of
        (Fin l, Fin n) \<Rightarrow>
          (case daysAgo tza now n of
             None \<Rightarrow> None
           | Some bound \<Rightarrow>
               if list_all (\<lambda>d. trendingScore d \<le> 9007199254740992) (candidates bound db) then
                 (if l \<le> 0 then Some (Inl MongoServerError)
                  else Some (Inr (lookup_unwind_stage (users db)
                                    (take (nat l) (sortStage (candidates bound db))))))
               else None)
      | _ \<Rightarrow> None)"

text \<open>
  Two sort stages that meet the contract: an insertion sort that keeps equal keys in the order
  it meets them, and one that reverses them.
\<close>

definition keeping_sort :: "trending_doc list \<Rightarrow> trending_doc list" where
  "keeping_sort ds = sort_key (\<lambda>d. - int (trendingScore d)) ds"

definition reversing_sort :: "trending_doc list \<Rightarrow> trending_doc list" where
  "reversing_sort ds = rev (sort_key (\<lambda>d. int (trendingScore d)) ds)"

definition utc_zone :: "int \<Rightarrow> bool \<Rightarrow> int" where
  "utc_zone t isUTC = 0"

text \<open>
  \<open>findByIdAndUpdate(id, {$inc: {views: 1}}, {new: true})\<close>. The driver first casts the
  id text to an ObjectId and throws when it cannot; which texts it accepts, and that letter
  case does not matter, is the driver's business, so the cast is the parameter
  \<open>castObjectId\<close>, giving the text of the ObjectId. The first document with that id, if
  any, gets its counter raised and is returned as updated. Raising by one is exact for a
  counter below \<open>2^53\<close>, whatever numeric type the store holds it in.
\<close>

fun inc_views :: "string \<Rightarrow> blog list \<Rightarrow> blog option \<times> blog list" where
  "inc_views oid [] = (None, [])"
| "inc_views oid (b # bs) =
     (if blog_id b = oid then (Some (b\<lparr>views := views b + 1\<rparr>), b\<lparr>views := views b + 1\<rparr> # bs)
      else (case inc_views oid bs of (r, bs') \<Rightarrow> (r, b # bs')))"

definition findByIdAndUpdate_inc_views ::
  "(string \<Rightarrow> string option) \<Rightarrow> string \<Rightarrow> database \<Rightarrow> thrown + (blog option \<times> database)" where
  "findByIdAndUpdate_inc_views castObjectId i db =
     (case castObjectId i of
        None \<Rightarrow> Inl CastError
      | Some oid \<Rightarrow> (case inc_views oid (blogs db) of (r, bs') \<Rightarrow> Inr (r, db\<lparr>blogs := bs'\<rparr>)))"

text \<open>
  One cast: 24 hexadecimal digits, letters in either case, read as the ObjectId whose text is
  the same digits in lower case.
\<close>

definition hex_lower :: "char \<Rightarrow> char" where
  "hex_lower c =
     (let n = (of_char c :: nat) in if 65 \<le> n \<and> n \<le> 70 then char_of (n + 32) else c)"

definition hexObjectId :: "string \<Rightarrow> string option" where
  "hexObjectId s =
     (if length s = 24 \<and> list_all (\<lambda>c. isHexDigit (of_char c)) s then Some (map hex_lower s)
      else None)"

text \<open>\<open>populate('author', ...)\<close>: the author's document, or null when there is none.\<close>

definition populate_author :: "database \<Rightarrow> blog \<Rightarrow> string option" where
  "populate_author db b = (if author b \<in> set (users db) then Some (author b) else None)"

section \<open>controllers/blogController.js\<close>

subsection \<open>getBlogs\<close>

text \<open>
  \<open>req.query\<close>, for the parameters followed here: each is absent or a string (a repeated
  parameter, which arrives as an array, is not covered). After the destructuring defaults
  \<open>page\<close> and \<open>limit\<close> are either the default number or the string sent.
\<close>

record query_params =
  q_page :: "ustring option"
  q_limit :: "ustring option"
  q_search :: "ustring option"

datatype qval = QNum int | QStr ustring

definition with_default :: "int \<Rightarrow> ustring option \<Rightarrow> qval" where
  "with_default d v = (case v of None \<Rightarrow> QNum d | Some s \<Rightarrow> QStr s)"

definition qv_parseInt :: "qval \<Rightarrow> jsnum option" where
  "qv_parseInt v = (case v of QNum n \<Rightarrow> exact n | QStr s \<Rightarrow> parseInt s)"

definition qv_toNumber :: "qval \<Rightarrow> jsnum option" where
  "qv_toNumber v = (case v of QNum n \<Rightarrow> exact n | QStr s \<Rightarrow> toNumber s)"

text \<open>
  The search pattern: \<open>search.trim().replace(/[.*+?^${}()|[\]\\]/g, '\\$&')\<close> puts a
  backslash before each of the fourteen characters of the class (the last is the backslash,
  code point 92); the expression is built with the flag \<open>i\<close>.
\<close>

record regexp =
  source :: ustring
  flags :: string

definition in_escape_class :: "nat \<Rightarrow> bool" where
  "in_escape_class c = (c \<in> set (ustr ''.*+?^${}()|[]'') \<or> c = 92)"

definition escapeRegExp :: "ustring \<Rightarrow> ustring" where
  "escapeRegExp s = concat (map (\<lambda>c. if in_escape_class c then [92, c] else [c]) s)"

definition searchRegex :: "ustring \<Rightarrow> regexp" where
  "searchRegex search = \<lparr>source = escapeRegExp (trim search), flags = ''i''\<rparr>"

text \<open>\<open>if (search)\<close>: the clause is added for a string that is not empty.\<close>

definition getBlogs_search :: "query_params \<Rightarrow> regexp option" where
  "getBlogs_search q =
     (case q_search q of Some (c # cs) \<Rightarrow> Some (searchRegex (c # cs)) | _ \<Rightarrow> None)"

text \<open>
  \<open>skip\<close> and \<open>limitNum\<close>, as passed to \<open>.skip()\<close> and \<open>.limit()\<close>.
\<close>

record paging =
  skip :: "jsnum option"
  limitNum :: "jsnum option"

definition getBlogs_paging :: "query_params \<Rightarrow> paging" where
  "getBlogs_paging q =
     (let page = with_default 1 (q_page q);
          limit = with_default 10 (q_limit q)
      in \<lparr>skip = Option.bind (qv_parseInt page)
                   (\<lambda>p. Option.bind (js_sub p 1)
                      (\<lambda>p1. Option.bind (qv_parseInt limit) (\<lambda>l. js_mul p1 l))),
          limitNum = qv_parseInt limit\<rparr>)"

text \<open>
  The pagination block, given the count the store returned. \<open>currentPage\<close> is
  \<open>parseInt(page)\<close>, while the two comparisons read \<open>page\<close> itself, which
  JavaScript converts with \<open>ToNumber\<close>. The result is \<open>None\<close> where one of the
  numbers is outside the model.
\<close>

record pagination =
  currentPage :: jsnum
  totalPages :: jsnum
  totalBlogs :: int
  hasNextPage :: bool
  hasPrevPage :: bool
  pg_limit :: jsnum

definition getBlogs_pagination :: "query_params \<Rightarrow> int \<Rightarrow> pagination option" where
  "getBlogs_pagination q cnt =
     (let page = with_default 1 (q_page q);
          limit = with_default 10 (q_limit q)
      in Option.bind (qv_parseInt limit)
           (\<lambda>limitNum. Option.bind (ceil_div cnt limitNum)
              (\<lambda>pages. Option.bind (qv_toNumber page)
                 (\<lambda>pageNum. Option.bind (qv_parseInt page)
                    (\<lambda>pageInt.
                       Some \<lparr>currentPage = pageInt, totalPages = pages, totalBlogs = cnt,
                             hasNextPage = js_lt pageNum pages,
                             hasPrevPage = js_lt (Fin 1) pageNum, pg_limit = limitNum\<rparr>)))))"

text \<open>
  What the regular-expression engine makes of a pattern, for the patterns that use no
  operator. The syntax characters are those of the pattern language itself:
  \<open>^ $ \ . * + ? ( ) [ ] { } |\<close>. A character that is not one of them stands for itself, and
  so does a syntax character after a backslash; the pattern then spells a text and matches a
  subject exactly when that text occurs in it. Any other pattern (a bare syntax character, a
  backslash before another character or at the end) is outside the model, hence
  \<open>None\<close>.
\<close>

definition syntax_character :: "nat \<Rightarrow> bool" where
  "syntax_character c = (c \<in> set [94, 36, 92, 46, 42, 43, 63, 40, 41, 91, 93, 123, 125, 124])"

fun regex_literal :: "ustring \<Rightarrow> ustring option" where
  "regex_literal [] = Some []"
| "regex_literal (c # cs) =
     (if c = 92 then
        (case cs of
           [] \<Rightarrow> None
         | d # ds \<Rightarrow> if syntax_character d then map_option ((#) d) (regex_literal ds) else None)
      else if syntax_character c then None
      else map_option ((#) c) (regex_literal cs))"

text \<open>
  With the flag \<open>i\<close> the engine compares characters after mapping each to its case
  representative; without it, as they are. The mapping is the engine's and is the parameter
  \<open>canon\<close>.
\<close>

definition regex_test :: "(nat \<Rightarrow> nat) \<Rightarrow> regexp \<Rightarrow> ustring \<Rightarrow> bool option" where
  "regex_test canon re subject =
     (case regex_literal (source re) of
        None \<Rightarrow> None
      | Some lit \<Rightarrow>
          Some (if CHR ''i'' \<in> set (flags re) then sublist (map canon lit) (map canon subject)
                else sublist lit subject))"

text \<open>
  The \<open>$or\<close> of the five conditions on \<open>title\<close>, \<open>content\<close>,
  \<open>excerpt\<close>, \<open>tags\<close> and \<open>category\<close>, evaluated on one document.
\<close>

definition or_matches :: "(nat \<Rightarrow> nat) \<Rightarrow> regexp \<Rightarrow> blog \<Rightarrow> bool option" where
  "or_matches canon re b =
     (case regex_literal (source re) of
        None \<Rightarrow> None
      | Some lit \<Rightarrow>
          Some (regex_test canon re (title b) = Some True
                \<or> regex_test canon re (content b) = Some True
                \<or> (case excerpt b of None \<Rightarrow> False | Some e \<Rightarrow> regex_test canon re e = Some True)
                \<or> list_ex (\<lambda>t. regex_test canon re t = Some True) (tags b)
                \<or> regex_test canon re (category b) = Some True))"

text \<open>
  What the claim about the search asks for: a text occurs in a field, letters compared
  without regard to case, when some run of the field has the same case representatives.
  \<open>ascii_canon\<close> is the mapping on ASCII letters.
\<close>

definition occurs_ci :: "(nat \<Rightarrow> nat) \<Rightarrow> ustring \<Rightarrow> ustring \<Rightarrow> bool" where
  "occurs_ci canon t field = (\<exists>r. sublist r field \<and> map canon r = map canon t)"

definition ascii_canon :: "nat \<Rightarrow> nat" where
  "ascii_canon c = (if 97 \<le> c \<and> c \<le> 122 then c - 32 else c)"

subsection \<open>getBlogById\<close>

datatype body = Success blog | Failure string

definition getBlogById ::
  "(string \<Rightarrow> string option) \<Rightarrow> request \<Rightarrow> database \<Rightarrow> body reply \<times> database" where
  "getBlogById castObjectId req db =
     (case findByIdAndUpdate_inc_views castObjectId (req_params_id req) db of
        Inl err \<Rightarrow> (\<lparr>statusCode = 500, data = Failure ''Server error fetching blog''\<rparr>, db)
      | Inr (None, db') \<Rightarrow> (\<lparr>statusCode = 404, data = Failure ''Blog not found''\<rparr>, db')
      | Inr (Some b, db') \<Rightarrow>
          if status b = ''published'' then (\<lparr>statusCode = 200, data = Success b\<rparr>, db')
          else (case req_user req of
                  None \<Rightarrow> (\<lparr>statusCode = 404, data = Failure ''Blog not found''\<rparr>, db')
                | Some u \<Rightarrow>
                    (case populate_author db' b of
                       None \<Rightarrow>
                         (\<lparr>statusCode = 500, data = Failure ''Server error fetching blog''\<rparr>, db')
                     | Some a \<Rightarrow>
                         if a = uid u then (\<lparr>statusCode = 200, data = Success b\<rparr>, db')
                         else (\<lparr>statusCode = 404, data = Failure ''Blog not found''\<rparr>, db'))))"

definition view_count :: "string \<Rightarrow> database \<Rightarrow> nat option" where
  "view_count i db = map_option views (find (\<lambda>b. blog_id b = i) (blogs db))"

subsection \<open>The writes and what they clear\<close>

text \<open>
  Each write controller, once the store has acknowledged the write, awaits
  \<open>clearRouteCache\<close> on a list of routes and then answers; the route's
  \<open>clearCacheAfterUpdate\<close> middleware calls \<open>clearRouteCache\<close> once more, on
  its own list, when the answer goes out with a 2xx status.
\<close>

datatype write_kind =
  CreateBlog | UpdateBlog string | DeleteBlog string | ToggleLike string | AddComment string

fun controller_routes :: "write_kind \<Rightarrow> string list" where
  "controller_routes CreateBlog = [''/api/blogs'', ''/api/blogs/trending'']"
| "controller_routes (UpdateBlog i) =
     [''/api/blogs'', ''/api/blogs/trending'', ''/api/blogs/'' @ i]"
| "controller_routes (DeleteBlog i) =
     [''/api/blogs'', ''/api/blogs/trending'', ''/api/blogs/'' @ i]"
| "controller_routes (ToggleLike i) = [''/api/blogs/'' @ i, ''/api/blogs/trending'']"
| "controller_routes (AddComment i) = [''/api/blogs/'' @ i, ''/api/blogs/trending'']"

fun middleware_routes :: "write_kind \<Rightarrow> string list" where
  "middleware_routes CreateBlog = [''/api/blogs'', ''/api/blogs/trending'']"
| "middleware_routes (UpdateBlog i) = [''/api/blogs'', ''/api/blogs/trending'']"
| "middleware_routes (DeleteBlog i) = [''/api/blogs'', ''/api/blogs/trending'']"
| "middleware_routes (ToggleLike i) = [''/api/blogs/trending'']"
| "middleware_routes (AddComment i) = [''/api/blogs/trending'']"

definition invalidate_after_write ::
  "nat \<Rightarrow> redis_client option \<Rightarrow> write_kind \<Rightarrow> redis_client option" where
  "invalidate_after_write now client w =
     clearRouteCache now (clearRouteCache now client (controller_routes w)) (middleware_routes w)"


section \<open>Query strings\<close>

text \<open>
  How a URL divides into path and parameters (the framework's \<open>req.path\<close> and
  \<open>req.query\<close>, for plain \<open>k=v\<close> pairs joined by \<open>&\<close>); used to say when two
  requests carry the same parameters.
\<close>

fun split_on :: "char \<Rightarrow> string \<Rightarrow> string list" where
  "split_on sep [] = [[]]"
| "split_on sep (x # xs) =
     (if x = sep then [] # split_on sep xs
      else (case split_on sep xs of [] \<Rightarrow> [[x]] | w # ws \<Rightarrow> (x # w) # ws))"

definition url_path :: "string \<Rightarrow> string" where
  "url_path u = takeWhile (\<lambda>c. c \<noteq> CHR ''?'') u"

definition url_query :: "string \<Rightarrow> (string \<times> string) list" where
  "url_query u =
     map (\<lambda>kv. (takeWhile (\<lambda>c. c \<noteq> CHR ''='') kv, drop 1 (dropWhile (\<lambda>c. c \<noteq> CHR ''='') kv)))
       (filter (\<lambda>kv. kv \<noteq> []) (split_on CHR ''&'' (drop 1 (dropWhile (\<lambda>c. c \<noteq> CHR ''?'') u))))"

section \<open>A sample store\<close>

text \<open>
  Three blogs by one user, read at \<open>sample_now\<close> (day 20, in milliseconds): \<open>blogA\<close>
  with 100 views, published on day 17; \<open>blogB\<close> with 10 likes and 5 comments, published
  on day 19; \<open>blogC\<close> with 1000 views, published on day 10. \<open>blogD\<close> is a published
  blog of day 19 whose author has no user document, \<open>draftE\<close> a draft with 7 views.
\<close>

definition sample_now :: int where
  "sample_now = 1728000000"

definition blogA :: blog where
  "blogA = \<lparr>blog_id = ''64b00000000000000000000a'', title = ustr ''abc'', content = ustr ''abc'',
      excerpt = None, author = ''64a000000000000000000001'', tags = [], category = ustr ''abc'',
      status = ''published'', views = 100, likes = [], comments = [],
      publishedAt = Some 1468800000\<rparr>"

definition blogB :: blog where
  "blogB = \<lparr>blog_id = ''64b00000000000000000000b'', title = ustr ''Modern C++ in practice'',
      content = ustr ''second'', excerpt = None, author = ''64a000000000000000000001'',
      tags = [], category = ustr ''general'', status = ''published'', views = 0,
      likes = [''u0'', ''u1'', ''u2'', ''u3'', ''u4'', ''u5'', ''u6'', ''u7'', ''u8'', ''u9''],
      comments = [(''u0'', ustr ''a''), (''u1'', ustr ''b''), (''u2'', ustr ''c''),
                  (''u3'', ustr ''d''), (''u4'', ustr ''e'')],
      publishedAt = Some 1641600000\<rparr>"

definition blogC :: blog where
  "blogC = \<lparr>blog_id = ''64b00000000000000000000c'', title = ustr ''C'', content = ustr ''third'',
      excerpt = None, author = ''64a000000000000000000001'', tags = [],
      category = ustr ''general'', status = ''published'', views = 1000, likes = [],
      comments = [], publishedAt = Some 864000000\<rparr>"

definition blogD :: blog where
  "blogD = \<lparr>blog_id = ''64b00000000000000000000d'', title = ustr ''D'', content = ustr ''fourth'',
      excerpt = None, author = ''64a000000000000000000009'', tags = [],
      category = ustr ''general'', status = ''published'', views = 3, likes = [],
      comments = [], publishedAt = Some 1641600000\<rparr>"

definition draftE :: blog where
  "draftE = \<lparr>blog_id = ''64b00000000000000000000e'', title = ustr ''E'', content = ustr ''fifth'',
      excerpt = None, author = ''64a000000000000000000001'', tags = [],
      category = ustr ''general'', status = ''draft'', views = 7, likes = [], comments = [],
      publishedAt = None\<rparr>"

definition sample_db :: database where
  "sample_db = \<lparr>blogs = [blogA, blogB, blogC], users = [''64a000000000000000000001'']\<rparr>"

definition orphan_db :: database where
  "orphan_db = \<lparr>blogs = [blogD], users = [''64a000000000000000000001'']\<rparr>"

definition draft_db :: database where
  "draft_db = \<lparr>blogs = [draftE], users = [''64a000000000000000000001'']\<rparr>"

definition sample_query :: "string \<Rightarrow> string \<Rightarrow> query_params" where
  "sample_query page limit =
     \<lparr>q_page = Some (ustr page), q_limit = Some (ustr limit), q_search = None\<rparr>"

text \<open>
  A zone whose offset changes from -4 h to -5 h at day 20 (clocks set back one hour), as in an
  autumn change of daylight-saving time.
\<close>

definition fall_zone :: "int \<Rightarrow> bool \<Rightarrow> int" where
  "fall_zone t isUTC =
     (if isUTC then (if t < 1728000000 then - 14400000 else - 18000000)
      else (if t + 14400000 < 1728000000 then - 14400000 else - 18000000))"

section \<open>Invalidation after a write\<close>

text \<open>
  Every pattern \<open>clearRouteCache\<close> builds begins with the literal text \<open>cache:\<close>,
  so \<open>KEYS\<close> can only return keys that begin with it, and a key that does not is never
  deleted.
\<close>

lemma glob_cache_prefix:
  "glob (''cache:'' @ rest) k \<Longrightarrow> take 6 k = ''cache:''"
  by (auto split: list.splits)

lemma map_of_filter_notin:
  "k \<notin> set ks \<Longrightarrow> map_of (filter (\<lambda>e. fst e \<notin> set ks) es) k = map_of es k"
  by (induction es) auto

lemma redis_keys_cache_prefix:
  "redis_keys now rc (''cache:'' @ rest) = Inr ks \<Longrightarrow> k \<in> set ks \<Longrightarrow> take 6 k = ''cache:''"
  using glob_cache_prefix [of rest]
  by (auto simp: redis_keys_def split: if_splits)

lemma clearCache_get:
  assumes "take 6 k \<noteq> ''cache:''"
  shows "\<exists>rc'. clearCache now (Some rc) (''cache:'' @ rest) = Some rc'
           \<and> redis_get t rc' k = redis_get t rc k"
proof (cases "redis_keys now rc (''cache:'' @ rest)")
  case (Inl e)
  then show ?thesis by (simp add: clearCache_def)
next
  case (Inr ks)
  then have "k \<notin> set ks" using assms redis_keys_cache_prefix by blast
  then show ?thesis using Inr
    by (auto simp: clearCache_def redis_del_def redis_get_def map_of_filter_notin split: sum.splits)
qed

lemma clearRouteCache_get:
  assumes "take 6 k \<noteq> ''cache:''"
  shows "\<exists>rc'. clearRouteCache now (Some rc) routes = Some rc'
           \<and> redis_get t rc' k = redis_get t rc k"
proof -
  have "\<exists>rc'. fold (\<lambda>route c. clearCache now c (''cache:*:*:'' @ route @ ''*'')) routes (Some rc) = Some rc'
           \<and> redis_get t rc' k = redis_get t rc k"
  proof (induction routes arbitrary: rc)
    case Nil
    then show ?case by simp
  next
    case (Cons r routes)
    obtain rc1 where 1: "clearCache now (Some rc) (''cache:'' @ (''*:*:'' @ r @ ''*'')) = Some rc1"
      and 2: "redis_get t rc1 k = redis_get t rc k"
      using clearCache_get [OF assms] by blast
    from Cons.IH [of rc1] 1 2 show ?case by simp
  qed
  then show ?thesis by (simp add: clearRouteCache_def)
qed

lemma invalidate_after_write_get:
  assumes "take 6 k \<noteq> ''cache:''"
  shows "\<exists>rc'. invalidate_after_write now (Some rc) w = Some rc'
           \<and> redis_get t rc' k = redis_get t rc k"
proof -
  obtain rc1 where 1: "clearRouteCache now (Some rc) (controller_routes w) = Some rc1"
    and 2: "redis_get t rc1 k = redis_get t rc k"
    using clearRouteCache_get [OF assms] by blast
  obtain rc2 where 3: "clearRouteCache now (Some rc1) (middleware_routes w) = Some rc2"
    and 4: "redis_get t rc2 k = redis_get t rc1 k"
    using clearRouteCache_get [OF assms] by blast
  show ?thesis using 1 2 3 4 by (simp add: invalidate_after_write_def)
qed

lemma key_prefixes:
  "take 6 (generateCacheKey req ''blogs'') \<noteq> ''cache:''"
  "take 6 (generateCacheKey req ''blog'') \<noteq> ''cache:''"
  "take 6 (generateCacheKey req ''trending'') \<noteq> ''cache:''"
  by (simp_all add: generateCacheKey_def)

lemma invalidation_keeps_instance_keys:
  "\<exists>rc'. invalidate_after_write now (Some rc) w = Some rc'
     \<and> redis_get t rc' (generateCacheKey req ''blogs'') = redis_get t rc (generateCacheKey req ''blogs'')
     \<and> redis_get t rc' (generateCacheKey req ''blog'') = redis_get t rc (generateCacheKey req ''blog'')
     \<and> redis_get t rc' (generateCacheKey req ''trending'') = redis_get t rc (generateCacheKey req ''trending'')"
proof -
  obtain rc' where 0: "invalidate_after_write now (Some rc) w = Some rc'"
    using invalidate_after_write_get [OF key_prefixes(1)] by blast
  show ?thesis
    using 0 invalidate_after_write_get [OF key_prefixes(1), of now rc w t req]
      invalidate_after_write_get [OF key_prefixes(2), of now rc w t req]
      invalidate_after_write_get [OF key_prefixes(3), of now rc w t req]
    by auto
qed

text \<open>
  Claim C1. After a write, every cached read the write affects is purged before the write
  answers, so the next read of such a key misses: creating a blog purges the blog list and the
  trending list.

  The code does not do this. The three cache instances store under the prefixes
  \<open>blogs\<close>, \<open>blog\<close> and \<open>trending\<close>, while the purge looks for \<open>cache:\<close>.
  Below, an anonymous \<open>GET /api/blogs\<close> was cached at time 0 for 300 seconds; after
  \<open>createBlog\<close> has run its invalidation at time 10 the entry is still there, whereas the
  same text stored under the prefix \<open>cache\<close> is gone; and the next
  \<open>GET /api/blogs\<close> is a hit that sends the old list without asking the handler.
\<close>

theorem C1_create_leaves_blog_list_cached:
  "generateCacheKey \<lparr>req_method = ''GET'', req_originalUrl = ''/api/blogs'', req_params_id = [],
       req_user = None\<rparr> ''blogs'' = ''blogs:guest:anonymous:/api/blogs''
   \<and> map_option (\<lambda>rc'. (redis_get 10 rc' ''blogs:guest:anonymous:/api/blogs'',
                          redis_get 10 rc' ''cache:guest:anonymous:/api/blogs''))
        (invalidate_after_write 10
           (Some \<lparr>entries = [(''blogs:guest:anonymous:/api/blogs'', ''old list'', 300),
                             (''cache:guest:anonymous:/api/blogs'', ''old list'', 300)],
                   get_fails = False, set_fails = False, keys_fails = False, del_fails = False\<rparr>)
           CreateBlog)
     = Some (Inr (Some ''old list''), Inr None)
   \<and> fst (cacheBlogList Some Some 10
        (invalidate_after_write 10
           (Some \<lparr>entries = [(''blogs:guest:anonymous:/api/blogs'', ''old list'', 300),
                             (''cache:guest:anonymous:/api/blogs'', ''old list'', 300)],
                   get_fails = False, set_fails = False, keys_fails = False, del_fails = False\<rparr>)
           CreateBlog)
        \<lparr>req_method = ''GET'', req_originalUrl = ''/api/blogs'', req_params_id = [],
          req_user = None\<rparr>
        (\<lambda>req (db :: nat). (\<lparr>statusCode = 200, data = ''new list''\<rparr>, db)) 0)
     = \<lparr>res_status = 200, res_body = ''old list'', x_cache_status = Some HIT,
         x_cache_key = Some ''blogs:guest:anonymous:/api/blogs'',
         cache_control_max_age = Some 300\<rparr>"
  by (simp add: generateCacheKey_def invalidate_after_write_def clearRouteCache_def clearCache_def
      redis_keys_def redis_del_def redis_get_def live_def cacheBlogList_def cache_def Let_def)

section \<open>The cache key\<close>

lemma colon_split:
  "CHR '':'' \<notin> set a \<Longrightarrow> CHR '':'' \<notin> set b \<Longrightarrow> a @ CHR '':'' # x = b @ CHR '':'' # y
     \<Longrightarrow> a = b \<and> x = y"
proof (induction a arbitrary: b)
  case Nil
  then show ?case by (cases b) auto
next
  case (Cons c a)
  then show ?case by (cases b) auto
qed

lemma key_components:
  assumes "CHR '':'' \<notin> set p1" "CHR '':'' \<notin> set p2"
    and "CHR '':'' \<notin> set r1" "CHR '':'' \<notin> set r2"
    and "CHR '':'' \<notin> set i1" "CHR '':'' \<notin> set i2"
    and "p1 @ '':'' @ r1 @ '':'' @ i1 @ '':'' @ u1 = p2 @ '':'' @ r2 @ '':'' @ i2 @ '':'' @ u2"
  shows "p1 = p2 \<and> r1 = r2 \<and> i1 = i2 \<and> u1 = u2"
proof -
  from assms(7) have e: "p1 @ CHR '':'' # (r1 @ CHR '':'' # (i1 @ CHR '':'' # u1))
      = p2 @ CHR '':'' # (r2 @ CHR '':'' # (i2 @ CHR '':'' # u2))" by simp
  from colon_split [OF assms(1,2) e]
  have p: "p1 = p2" and e2: "r1 @ CHR '':'' # (i1 @ CHR '':'' # u1) = r2 @ CHR '':'' # (i2 @ CHR '':'' # u2)"
    by simp_all
  from colon_split [OF assms(3,4) e2]
  have r: "r1 = r2" and e3: "i1 @ CHR '':'' # u1 = i2 @ CHR '':'' # u2" by simp_all
  from colon_split [OF assms(5,6) e3] p r show ?thesis by simp
qed

text \<open>
  Claim C2, as the code has it. The key is the instance prefix, the role, the id and the URL
  as received, joined by colons. Two requests with the same URL text and the same requester get
  the same key; the query string is not reordered or case-folded. Two signed-in requesters with
  different ids get different keys, whatever the URLs, as long as prefixes, roles and ids
  contain no colon (ids are ObjectId texts, roles \<open>user\<close> or \<open>admin\<close>).
\<close>

theorem C2_cache_key_same_url_and_distinct_users:
  "(req_originalUrl r1 = req_originalUrl r2 \<and> req_user r1 = req_user r2
      \<longrightarrow> generateCacheKey r1 p = generateCacheKey r2 p)
   \<and> (req_user r1 = Some a \<and> req_user r2 = Some b \<and> uid a \<noteq> uid b
      \<and> CHR '':'' \<notin> set p1 \<union> set p2 \<union> set (urole a) \<union> set (urole b) \<union> set (uid a) \<union> set (uid b)
      \<longrightarrow> generateCacheKey r1 p1 \<noteq> generateCacheKey r2 p2)"
proof (intro conjI impI)
  assume "req_originalUrl r1 = req_originalUrl r2 \<and> req_user r1 = req_user r2"
  then show "generateCacheKey r1 p = generateCacheKey r2 p"
    by (simp add: generateCacheKey_def)
next
  assume h: "req_user r1 = Some a \<and> req_user r2 = Some b \<and> uid a \<noteq> uid b
      \<and> CHR '':'' \<notin> set p1 \<union> set p2 \<union> set (urole a) \<union> set (urole b) \<union> set (uid a) \<union> set (uid b)"
  show "generateCacheKey r1 p1 \<noteq> generateCacheKey r2 p2"
  proof
    assume "generateCacheKey r1 p1 = generateCacheKey r2 p2"
    with h have "p1 @ '':'' @ urole a @ '':'' @ uid a @ '':'' @ req_originalUrl r1
        = p2 @ '':'' @ urole b @ '':'' @ uid b @ '':'' @ req_originalUrl r2"
      by (simp add: generateCacheKey_def)
    from key_components [OF _ _ _ _ _ _ this] h show False by simp
  qed
qed

text \<open>
  Witness for C2: the same user asking twice for \<open>/api/blogs/1\<close>, and two users asking for
  it.
\<close>

theorem C2_cache_key_witness:
  "generateCacheKey \<lparr>req_method = ''GET'', req_originalUrl = ''/api/blogs/1'', req_params_id = ''1'',
        req_user = Some \<lparr>uid = ''aa'', urole = ''user''\<rparr>\<rparr> ''blog''
   = generateCacheKey \<lparr>req_method = ''GET'', req_originalUrl = ''/api/blogs/1'', req_params_id = ''2'',
        req_user = Some \<lparr>uid = ''aa'', urole = ''user''\<rparr>\<rparr> ''blog''
   \<and> generateCacheKey \<lparr>req_method = ''GET'', req_originalUrl = ''/api/blogs/1'', req_params_id = ''1'',
        req_user = Some \<lparr>uid = ''aa'', urole = ''user''\<rparr>\<rparr> ''blog''
   \<noteq> generateCacheKey \<lparr>req_method = ''GET'', req_originalUrl = ''/api/blogs/1'', req_params_id = ''2'',
        req_user = Some \<lparr>uid = ''ab'', urole = ''user''\<rparr>\<rparr> ''blog''"
  using C2_cache_key_same_url_and_distinct_users [of "\<lparr>req_method = ''GET'', req_originalUrl = ''/api/blogs/1'', req_params_id = ''1'',
        req_user = Some \<lparr>uid = ''aa'', urole = ''user''\<rparr>\<rparr>"
      "\<lparr>req_method = ''GET'', req_originalUrl = ''/api/blogs/1'', req_params_id = ''2'',
        req_user = Some \<lparr>uid = ''aa'', urole = ''user''\<rparr>\<rparr>" "''blog''"
      "\<lparr>uid = ''aa'', urole = ''user''\<rparr>" "\<lparr>uid = ''aa'', urole = ''user''\<rparr>" "''blog''" "''blog''"]
    C2_cache_key_same_url_and_distinct_users [of "\<lparr>req_method = ''GET'', req_originalUrl = ''/api/blogs/1'', req_params_id = ''1'',
        req_user = Some \<lparr>uid = ''aa'', urole = ''user''\<rparr>\<rparr>"
      "\<lparr>req_method = ''GET'', req_originalUrl = ''/api/blogs/1'', req_params_id = ''2'',
        req_user = Some \<lparr>uid = ''ab'', urole = ''user''\<rparr>\<rparr>" "''blog''"
      "\<lparr>uid = ''aa'', urole = ''user''\<rparr>" "\<lparr>uid = ''ab'', urole = ''user''\<rparr>" "''blog''" "''blog''"]
  by simp

text \<open>
  Counterexample to C2 as stated: the same path and the same two parameters in another order
  give two different keys.
\<close>

theorem C2_parameter_order_counterexample:
  "url_path ''/api/blogs?page=1&limit=10'' = url_path ''/api/blogs?limit=10&page=1''
   \<and> set (url_query ''/api/blogs?page=1&limit=10'') = set (url_query ''/api/blogs?limit=10&page=1'')
   \<and> generateCacheKey \<lparr>req_method = ''GET'', req_originalUrl = ''/api/blogs?page=1&limit=10'',
          req_params_id = [], req_user = None\<rparr> ''blogs''
     \<noteq> generateCacheKey \<lparr>req_method = ''GET'', req_originalUrl = ''/api/blogs?limit=10&page=1'',
          req_params_id = [], req_user = None\<rparr> ''blogs''"
  by (simp add: url_path_def url_query_def generateCacheKey_def insert_commute)

section \<open>Reads when the cache backend fails\<close>

text \<open>
  Claim C8. When there is no Redis client, when \<open>get\<close> rejects, or when the read misses
  and the write-back \<open>setEx\<close> rejects, the response carries the status and the data of the
  handler's own answer, the document store is what the handler left, and the Redis state is
  untouched: the failure is swallowed and the caller sees no error.
\<close>

theorem C8_cache_unavailable_read_served:
  assumes "client = None \<or> (\<exists>rc. client = Some rc \<and> (get_fails rc \<or>
              (set_fails rc \<and> redis_get now rc (generateCacheKey req keyPrefix) = Inr None)))"
  shows "(case cache ttl keyPrefix parse stringify now client req handler db of
            (resp, client', db') \<Rightarrow>
              res_status resp = statusCode (fst (handler req db))
              \<and> res_body resp = data (fst (handler req db))
              \<and> db' = snd (handler req db) \<and> client' = client)"
  using assms
  by (auto simp: cache_def next_handler_def cacheResponse_def redis_get_def redis_setEx_def Let_def
      split: prod.splits option.splits sum.splits list.splits if_splits)

text \<open>
  Witness for C8: a miss on a backend whose \<open>setEx\<close> rejects; the handler's list is sent
  with status 200 and its effect on the store is kept.
\<close>

theorem C8_failed_cache_write_witness:
  "(case cache 300 ''blogs'' Some Some 0
           (Some \<lparr>entries = [], get_fails = False, set_fails = True, keys_fails = False,
                   del_fails = False\<rparr>)
           \<lparr>req_method = ''GET'', req_originalUrl = ''/api/blogs'', req_params_id = [],
             req_user = None\<rparr>
           (\<lambda>req n. (\<lparr>statusCode = 200, data = ''list''\<rparr>, Suc n)) (0::nat) of
      (resp, client', db') \<Rightarrow>
        res_status resp = 200 \<and> res_body resp = ''list'' \<and> db' = 1
        \<and> client' = Some \<lparr>entries = [], get_fails = False, set_fails = True, keys_fails = False,
                            del_fails = False\<rparr>)"
  using C8_cache_unavailable_read_served [where client = "Some \<lparr>entries = [], get_fails = False, set_fails = True,
                   keys_fails = False, del_fails = False\<rparr>"
      and now = 0 and keyPrefix = "''blogs''" and ttl = 300 and parse = Some and stringify = Some
      and req = "\<lparr>req_method = ''GET'', req_originalUrl = ''/api/blogs'', req_params_id = [],
             req_user = None\<rparr>"
      and handler = "\<lambda>req n. (\<lparr>statusCode = 200, data = ''list''\<rparr>, Suc n)" and db = "0::nat"]
  by (simp add: redis_get_def)

section \<open>The view counter\<close>

lemma inc_views_fst:
  "fst (inc_views i bs) = map_option (\<lambda>b. b\<lparr>views := views b + 1\<rparr>) (find (\<lambda>b. blog_id b = i) bs)"
  by (induction bs) (auto split: prod.splits)

lemma inc_views_find:
  "find (\<lambda>b. blog_id b = i) (snd (inc_views i bs))
     = map_option (\<lambda>b. b\<lparr>views := views b + 1\<rparr>) (find (\<lambda>b. blog_id b = i) bs)"
  by (induction bs) (auto split: prod.splits)

lemma inc_views_others:
  "filter (\<lambda>b. blog_id b \<noteq> i) (snd (inc_views i bs)) = filter (\<lambda>b. blog_id b \<noteq> i) bs"
  by (induction bs) (auto split: prod.splits)

lemma getBlogById_store:
  "castObjectId (req_params_id req) = Some oid \<Longrightarrow>
     snd (getBlogById castObjectId req db) = db\<lparr>blogs := snd (inc_views oid (blogs db))\<rparr>"
  by (auto simp: getBlogById_def findByIdAndUpdate_inc_views_def
      split: prod.splits option.splits sum.splits if_splits)

lemma getBlogById_hidden:
  assumes "castObjectId (req_params_id req) = Some oid"
    and "find (\<lambda>x. blog_id x = oid) (blogs db) = Some b"
    and "status b \<noteq> ''published''"
    and "req_user req = None \<or> (\<exists>u. req_user req = Some u \<and> author b \<in> set (users db) \<and> author b \<noteq> uid u)"
  shows "statusCode (fst (getBlogById castObjectId req db)) = 404"
proof -
  have "fst (inc_views oid (blogs db)) = Some (b\<lparr>views := views b + 1\<rparr>)"
    using assms(2) by (simp add: inc_views_fst)
  then show ?thesis using assms(1,3,4)
    by (auto simp: getBlogById_def findByIdAndUpdate_inc_views_def populate_author_def
      split: prod.splits option.splits sum.splits)
qed

text \<open>
  Claim C9. For a blog that exists, \<open>getBlogById\<close> raises its view counter by exactly
  one and changes nothing else in the store, whatever it then answers; in particular when the
  blog is not published and the requester is anonymous or is not its author, the answer is 404
  and the store has nevertheless changed. The invocation reaches the store when the driver
  casts the id (whatever its rules) and the ObjectId is that of a stored blog; the counter is
  below \<open>2^53\<close>, where raising it is exact.
\<close>

theorem C9_getBlogById_increments_views:
  assumes "castObjectId (req_params_id req) = Some oid"
    and "find (\<lambda>x. blog_id x = oid) (blogs db) = Some b"
    and "views b < 9007199254740992"
  shows "(case getBlogById castObjectId req db of
            (r, db') \<Rightarrow>
              view_count oid db' = Some (views b + 1)
              \<and> find (\<lambda>x. blog_id x = oid) (blogs db') = Some (b\<lparr>views := views b + 1\<rparr>)
              \<and> filter (\<lambda>x. blog_id x \<noteq> oid) (blogs db') = filter (\<lambda>x. blog_id x \<noteq> oid) (blogs db)
              \<and> users db' = users db
              \<and> (status b \<noteq> ''published''
                   \<and> (req_user req = None
                       \<or> (\<exists>u. req_user req = Some u \<and> author b \<in> set (users db) \<and> author b \<noteq> uid u))
                  \<longrightarrow> statusCode r = 404 \<and> db' \<noteq> db))"
proof -
  obtain r db' where g: "getBlogById castObjectId req db = (r, db')"
    by (cases "getBlogById castObjectId req db")
  have s: "db' = db\<lparr>blogs := snd (inc_views oid (blogs db))\<rparr>"
    using getBlogById_store [where castObjectId = castObjectId and req = req and db = db, OF assms(1)] g by simp
  have f: "find (\<lambda>x. blog_id x = oid) (blogs db') = Some (b\<lparr>views := views b + 1\<rparr>)"
    using s assms(2) by (simp add: inc_views_find)
  have ne: "db' \<noteq> db"
  proof
    assume "db' = db"
    with f assms(2) have "b\<lparr>views := views b + 1\<rparr> = b" by simp
    then have "views (b\<lparr>views := views b + 1\<rparr>) = views b" by simp
    then show False by simp
  qed
  have h: "status b \<noteq> ''published''
      \<and> (req_user req = None
          \<or> (\<exists>u. req_user req = Some u \<and> author b \<in> set (users db) \<and> author b \<noteq> uid u))
      \<longrightarrow> statusCode r = 404"
    using getBlogById_hidden [where castObjectId = castObjectId and req = req and db = db, OF assms(1,2)] g by auto
  show ?thesis
    using g f s h ne by (simp add: view_count_def inc_views_others)
qed

lemma hexObjectId_upper:
  "hexObjectId ''64B00000000000000000000E'' = Some ''64b00000000000000000000e''"
  by code_simp

text \<open>
  Witness for C9: an anonymous request for a draft with 7 views, its id spelled in upper case,
  is answered 404 and leaves the draft with 8 views.
\<close>

theorem C9_hidden_draft_witness:
  "hexObjectId ''64B00000000000000000000E'' = Some ''64b00000000000000000000e''
   \<and> find (\<lambda>x. blog_id x = ''64b00000000000000000000e'') (blogs draft_db) = Some draftE
   \<and> views draftE = 7 \<and> status draftE = ''draft''
   \<and> (case getBlogById hexObjectId
        \<lparr>req_method = ''GET'', req_originalUrl = ''/api/blogs/64B00000000000000000000E'',
          req_params_id = ''64B00000000000000000000E'', req_user = None\<rparr> draft_db of
        (r, db') \<Rightarrow>
          statusCode r = 404 \<and> view_count ''64b00000000000000000000e'' db' = Some 8
          \<and> db' \<noteq> draft_db)"
proof -
  let ?req = "\<lparr>req_method = ''GET'', req_originalUrl = ''/api/blogs/64B00000000000000000000E'',
          req_params_id = ''64B00000000000000000000E'', req_user = None\<rparr>"
  have c: "hexObjectId (req_params_id ?req) = Some ''64b00000000000000000000e''"
    using hexObjectId_upper by simp
  have f: "find (\<lambda>x. blog_id x = ''64b00000000000000000000e'') (blogs draft_db) = Some draftE"
    by (simp add: draft_db_def draftE_def)
  have v: "views draftE < 9007199254740992" "views draftE = 7" "status draftE = ''draft''"
    by (simp_all add: draftE_def)
  from C9_getBlogById_increments_views
    [where castObjectId = hexObjectId and req = ?req and db = draft_db, OF c f v(1)] v
  have "case getBlogById hexObjectId ?req draft_db of
          (r, db') \<Rightarrow>
            statusCode r = 404 \<and> view_count ''64b00000000000000000000e'' db' = Some 8
            \<and> db' \<noteq> draft_db"
    by (auto split: prod.splits)
  with c f v show ?thesis by simp
qed

text \<open>
  Claim C10. A single-blog read answered from the cache (\<open>X-Cache-Status: HIT\<close>) sends
  the parsed cached text and never reaches \<open>getBlogById\<close>: the document store and the
  Redis state are as before. Hence a read after which some view counter differs was not a hit.
\<close>

theorem C10_cache_hit_leaves_store:
  assumes "cacheBlog parse stringify now client req (getBlogById castObjectId) db = (resp, client', db')"
  shows "(x_cache_status resp = Some HIT \<longrightarrow>
            db' = db \<and> client' = client
            \<and> (\<exists>rc text. client = Some rc
                  \<and> redis_get now rc (generateCacheKey req ''blog'') = Inr (Some text)
                  \<and> parse text = Some (res_body resp)))
         \<and> (view_count i db' \<noteq> view_count i db \<longrightarrow> x_cache_status resp \<noteq> Some HIT)"
  using assms
  by (auto simp: cacheBlog_def cache_def next_handler_def Let_def
      split: prod.splits option.splits sum.splits list.splits if_splits)

text \<open>
  Witness for C10: with an entry cached for \<open>blogA\<close>, the read is a hit and the blog keeps
  its 100 views, where \<open>getBlogById\<close> on its own would have made them 101.
\<close>

theorem C10_cache_hit_witness:
  "cacheBlog (\<lambda>t. Some (Failure t)) (\<lambda>d. Some ''x'') 10
     (Some \<lparr>entries = [(''blog:guest:anonymous:/api/blogs/64b00000000000000000000a'', ''cached'', 300)],
             get_fails = False, set_fails = False, keys_fails = False, del_fails = False\<rparr>)
     \<lparr>req_method = ''GET'', req_originalUrl = ''/api/blogs/64b00000000000000000000a'',
       req_params_id = ''64b00000000000000000000a'', req_user = None\<rparr>
     (getBlogById hexObjectId) sample_db
   = (\<lparr>res_status = 200, res_body = Failure ''cached'', x_cache_status = Some HIT,
       x_cache_key = Some ''blog:guest:anonymous:/api/blogs/64b00000000000000000000a'',
       cache_control_max_age = Some 300\<rparr>,
      Some \<lparr>entries = [(''blog:guest:anonymous:/api/blogs/64b00000000000000000000a'', ''cached'', 300)],
             get_fails = False, set_fails = False, keys_fails = False, del_fails = False\<rparr>,
      sample_db)
   \<and> view_count ''64b00000000000000000000a'' sample_db = Some 100
   \<and> view_count ''64b00000000000000000000a''
        (snd (getBlogById hexObjectId
          \<lparr>req_method = ''GET'', req_originalUrl = ''/api/blogs/64b00000000000000000000a'',
            req_params_id = ''64b00000000000000000000a'', req_user = None\<rparr> sample_db))
      = Some 101"
proof -
  let ?rc = "\<lparr>entries = [(''blog:guest:anonymous:/api/blogs/64b00000000000000000000a'', ''cached'', 300)],
             get_fails = False, set_fails = False, keys_fails = False, del_fails = False\<rparr>"
  let ?req = "\<lparr>req_method = ''GET'', req_originalUrl = ''/api/blogs/64b00000000000000000000a'',
       req_params_id = ''64b00000000000000000000a'', req_user = None\<rparr>"
  let ?out = "cacheBlog (\<lambda>t. Some (Failure t)) (\<lambda>d. Some ''x'') 10 (Some ?rc) ?req
                (getBlogById hexObjectId) sample_db"
  have body: "fst ?out = \<lparr>res_status = 200, res_body = Failure ''cached'', x_cache_status = Some HIT,
       x_cache_key = Some ''blog:guest:anonymous:/api/blogs/64b00000000000000000000a'',
       cache_control_max_age = Some 300\<rparr>"
    by (simp add: cacheBlog_def cache_def generateCacheKey_def redis_get_def Let_def)
  then have hit: "x_cache_status (fst ?out) = Some HIT" by simp
  have "snd (snd ?out) = sample_db \<and> fst (snd ?out) = Some ?rc"
    using C10_cache_hit_leaves_store [of "\<lambda>t. Some (Failure t)" "\<lambda>d. Some ''x''" 10 "Some ?rc" ?req
        hexObjectId sample_db "fst ?out" "fst (snd ?out)" "snd (snd ?out)"] hit
    by simp
  then have 1: "?out = (\<lparr>res_status = 200, res_body = Failure ''cached'', x_cache_status = Some HIT,
       x_cache_key = Some ''blog:guest:anonymous:/api/blogs/64b00000000000000000000a'',
       cache_control_max_age = Some 300\<rparr>, Some ?rc, sample_db)"
    using body by (metis prod.collapse)
  have c: "hexObjectId ''64b00000000000000000000a'' = Some ''64b00000000000000000000a''"
    by code_simp
  have 2: "view_count ''64b00000000000000000000a'' sample_db = Some 100"
    by (simp add: view_count_def sample_db_def blogA_def)
  have 3: "view_count ''64b00000000000000000000a'' (snd (getBlogById hexObjectId ?req sample_db)) = Some 101"
    using c by (simp add: getBlogById_def findByIdAndUpdate_inc_views_def view_count_def
        sample_db_def blogA_def)
  from 1 2 3 show ?thesis by blast
qed

section \<open>Trending\<close>

lemma sort_contract_keeping: "sort_contract keeping_sort"
proof -
  have "descending (keeping_sort ds)" for ds
  proof -
    have "sorted (map (\<lambda>d. - int (trendingScore d)) (keeping_sort ds))"
      by (simp add: keeping_sort_def)
    then show ?thesis by (simp add: descending_def sorted_map)
  qed
  then show ?thesis by (simp add: sort_contract_def keeping_sort_def)
qed

lemma sort_contract_reversing: "sort_contract reversing_sort"
proof -
  have "descending (reversing_sort ds)" for ds
  proof -
    have "sorted (map (\<lambda>d. int (trendingScore d)) (sort_key (\<lambda>d. int (trendingScore d)) ds))"
      by simp
    then have "sorted_wrt (\<lambda>a b. trendingScore a \<le> trendingScore b)
        (sort_key (\<lambda>d. int (trendingScore d)) ds)"
      by (simp add: sorted_map)
    then have "sorted_wrt (\<lambda>a b. trendingScore b \<le> trendingScore a)
        (rev (sort_key (\<lambda>d. int (trendingScore d)) ds))"
      by (simp add: sorted_wrt_rev)
    then show ?thesis by (simp add: descending_def reversing_sort_def)
  qed
  then show ?thesis by (simp add: sort_contract_def reversing_sort_def)
qed

lemma findTrending_Inr:
  assumes "findTrending sortStage tza (Fin l) (Fin n) now db = Some (Inr res)"
  shows "\<exists>bound. daysAgo tza now n = Some bound \<and> 0 < l
           \<and> res = lookup_unwind_stage (users db) (take (nat l) (sortStage (candidates bound db)))"
  using assms by (auto simp: findTrending_def split: option.splits if_splits)

lemma descending_result:
  "descending S \<Longrightarrow> descending (lookup_unwind_stage us (take k S))"
  unfolding descending_def lookup_unwind_stage_def
  by (intro sorted_wrt_filter sorted_wrt_take)


lemma daysAgo_utc_zone:
  assumes "\<bar>now\<bar> \<le> 8640000000000000" and "\<bar>timeframe\<bar> \<le> 100000000"
    and "\<bar>now - timeframe * 86400000\<bar> \<le> 8640000000000000"
  shows "daysAgo utc_zone now timeframe = Some (now - timeframe * 86400000)"
  using assms by (simp add: daysAgo_def utc_zone_def)

lemma daysAgo_across_offset_change:
  "daysAgo fall_zone 1944000000 7 = Some 1335600000
   \<and> (1944000000 :: int) - 7 * 86400000 = 1339200000"
  by (simp add: daysAgo_def fall_zone_def)

lemmas trending_eval = findTrending_def daysAgo_def utc_zone_def candidates_def match_stage_def
  addFields_stage_def keeping_sort_def reversing_sort_def lookup_unwind_stage_def sample_now_def
  sample_db_def orphan_db_def blogA_def blogB_def blogC_def blogD_def

text \<open>
  Claim C3, as the code has it. Whatever admissible order the store's sort gives, the result
  of \<open>findTrending\<close> is the first \<open>limit\<close> documents of a ranking of all matching
  blogs in descending order of score, less those whose author has no user document: it is in
  descending order of score, has at most \<open>limit\<close> documents, and exactly
  \<open>min limit n\<close> of them when the authors of all \<open>n\<close> matching blogs exist. The
  pipeline sorts on the score alone, so nothing orders documents of equal score by
  \<open>publishedAt\<close>.
\<close>

theorem C3_trending_sorted_truncated:
  assumes "sort_contract sortStage"
    and "findTrending sortStage tza (Fin limit) (Fin timeframe) now db = Some (Inr res)"
  shows "\<exists>bound S.
           daysAgo tza now timeframe = Some bound
           \<and> mset S = mset (map addFields_stage (filter (match_stage bound) (blogs db)))
           \<and> sorted_wrt (\<lambda>a b. trendingScore b \<le> trendingScore a) S
           \<and> res = filter (\<lambda>d. author (doc d) \<in> set (users db)) (take (nat limit) S)
           \<and> sorted_wrt (\<lambda>a b. trendingScore b \<le> trendingScore a) res
           \<and> int (length res) \<le> limit
           \<and> (list_all (\<lambda>b. author b \<in> set (users db)) (filter (match_stage bound) (blogs db))
                \<longrightarrow> length res = min (nat limit) (length (filter (match_stage bound) (blogs db))))"
proof -
  from findTrending_Inr [OF assms(2)] obtain bound where
    b: "daysAgo tza now timeframe = Some bound" and pos: "0 < limit"
    and res: "res = lookup_unwind_stage (users db) (take (nat limit) (sortStage (candidates bound db)))"
    by blast
  let ?S = "sortStage (candidates bound db)"
  have m: "mset ?S = mset (candidates bound db)" and d: "descending ?S"
    using assms(1) by (simp_all add: sort_contract_def)
  have 1: "mset ?S = mset (map addFields_stage (filter (match_stage bound) (blogs db)))"
    using m by (simp add: candidates_def)
  have 2: "sorted_wrt (\<lambda>a b. trendingScore b \<le> trendingScore a) ?S"
    using d by (simp add: descending_def)
  have 3: "res = filter (\<lambda>d. author (doc d) \<in> set (users db)) (take (nat limit) ?S)"
    using res by (simp add: lookup_unwind_stage_def)
  have 4: "sorted_wrt (\<lambda>a b. trendingScore b \<le> trendingScore a) res"
    using descending_result [OF d] res by (simp add: descending_def)
  have "length res \<le> length (take (nat limit) ?S)"
    unfolding 3 by (rule length_filter_le)
  then have "length res \<le> nat limit" by simp
  then have 5: "int (length res) \<le> limit" using pos by linarith
  have len: "length ?S = length (filter (match_stage bound) (blogs db))"
    using m by (metis candidates_def length_map mset_eq_length)
  have 6: "length res = min (nat limit) (length (filter (match_stage bound) (blogs db)))"
    if a: "list_all (\<lambda>b. author b \<in> set (users db)) (filter (match_stage bound) (blogs db))"
  proof -
    have "set ?S = set (candidates bound db)" using m by (rule mset_eq_setD)
    then have "\<forall>t\<in>set ?S. author (doc t) \<in> set (users db)"
      using a by (auto simp: candidates_def addFields_stage_def list_all_iff)
    then have "\<forall>t\<in>set (take (nat limit) ?S). author (doc t) \<in> set (users db)"
      by (meson in_set_takeD)
    then have "res = take (nat limit) ?S" unfolding 3 by simp
    then show ?thesis using len by simp
  qed
  from b 1 2 3 4 5 6 show ?thesis by blast
qed

text \<open>
  Witness for C3: with a limit of 1 the sample store, where two blogs match and their author
  exists, yields one document.
\<close>

theorem C3_top_one_witness:
  "sort_contract keeping_sort
   \<and> findTrending keeping_sort utc_zone (Fin 1) (Fin 7) sample_now sample_db
     = Some (Inr [\<lparr>doc = blogA, likesCount = 0, commentsCount = 0, trendingScore = 100\<rparr>])
   \<and> daysAgo utc_zone sample_now 7 = Some 1123200000
   \<and> list_all (\<lambda>b. author b \<in> set (users sample_db)) (filter (match_stage 1123200000) (blogs sample_db))
   \<and> length [\<lparr>doc = blogA, likesCount = 0, commentsCount = 0, trendingScore = 100\<rparr>]
       = min (nat 1) (length (filter (match_stage 1123200000) (blogs sample_db)))"
proof -
  let ?res = "[\<lparr>doc = blogA, likesCount = 0, commentsCount = 0, trendingScore = 100\<rparr>]"
  have e: "findTrending keeping_sort utc_zone (Fin 1) (Fin 7) sample_now sample_db = Some (Inr ?res)"
    by (simp add: trending_eval)
  have d: "daysAgo utc_zone sample_now 7 = Some 1123200000"
    by (simp add: trending_eval)
  have a: "list_all (\<lambda>b. author b \<in> set (users sample_db))
      (filter (match_stage 1123200000) (blogs sample_db))"
    by (simp add: trending_eval)
  from C3_trending_sorted_truncated [OF sort_contract_keeping e] d a
  have "length ?res = min (nat 1) (length (filter (match_stage 1123200000) (blogs sample_db)))"
    by auto
  with sort_contract_keeping e d a show ?thesis by blast
qed

text \<open>
  Counterexample to C3 as stated: \<open>blogA\<close> and \<open>blogB\<close> both score 100 and
  \<open>blogB\<close> is the more recently published. Under one admissible sort \<open>blogA\<close> is
  returned first, under another \<open>blogB\<close>: the code does not break the tie.
\<close>

theorem C3_tie_order_counterexample:
  "sort_contract keeping_sort
   \<and> findTrending keeping_sort utc_zone (Fin 2) (Fin 7) sample_now sample_db
     = Some (Inr [\<lparr>doc = blogA, likesCount = 0, commentsCount = 0, trendingScore = 100\<rparr>,
                  \<lparr>doc = blogB, likesCount = 10, commentsCount = 5, trendingScore = 100\<rparr>])
   \<and> sort_contract reversing_sort
   \<and> findTrending reversing_sort utc_zone (Fin 2) (Fin 7) sample_now sample_db
     = Some (Inr [\<lparr>doc = blogB, likesCount = 10, commentsCount = 5, trendingScore = 100\<rparr>,
                  \<lparr>doc = blogA, likesCount = 0, commentsCount = 0, trendingScore = 100\<rparr>])
   \<and> publishedAt blogA = Some 1468800000 \<and> publishedAt blogB = Some 1641600000"
proof -
  have 1: "findTrending keeping_sort utc_zone (Fin 2) (Fin 7) sample_now sample_db
     = Some (Inr [\<lparr>doc = blogA, likesCount = 0, commentsCount = 0, trendingScore = 100\<rparr>,
                  \<lparr>doc = blogB, likesCount = 10, commentsCount = 5, trendingScore = 100\<rparr>])"
    by (simp add: trending_eval)
  have 2: "findTrending reversing_sort utc_zone (Fin 2) (Fin 7) sample_now sample_db
     = Some (Inr [\<lparr>doc = blogB, likesCount = 10, commentsCount = 5, trendingScore = 100\<rparr>,
                  \<lparr>doc = blogA, likesCount = 0, commentsCount = 0, trendingScore = 100\<rparr>])"
    by (simp add: trending_eval)
  have 3: "publishedAt blogA = Some 1468800000 \<and> publishedAt blogB = Some 1641600000"
    by (simp add: blogA_def blogB_def)
  from 1 2 3 sort_contract_keeping sort_contract_reversing show ?thesis by blast
qed




section \<open>Pagination\<close>

lemmas number_eval = sample_query_def with_default_def qv_parseInt_def qv_toNumber_def
  parseInt_def toNumber_def parseInt_digits_def toNumber_unsigned_def trimStart_def trim_def
  isWhiteSpace_def isDigit_def mathInt_def digitValue_def exact_def ustr_def

text \<open>
  Claim C5. For every count \<open>totalCount \<ge> 0\<close>, page size \<open>pageSize > 0\<close> and current
  page \<open>currentPage \<ge> 1\<close> the pagination metadata satisfies
  \<open>totalPages = ceil(totalCount / pageSize)\<close>, \<open>hasNext = (currentPage < totalPages)\<close>
  and \<open>hasPrev = (currentPage > 1)\<close>.

  The code does not keep this. \<open>currentPage\<close> is \<open>parseInt(page)\<close>, but the two
  comparisons read \<open>page\<close> as sent. For \<open>?page=2abc&limit=10\<close> and 25 blogs the
  query skips 10 and the answer reports page 2 of 3 with neither a previous nor a next page.
\<close>

theorem C5_raw_page_text_breaks_hasPrevPage:
  "getBlogs_pagination (sample_query ''2abc'' ''10'') 25
   = Some \<lparr>currentPage = Fin 2, totalPages = Fin 3, totalBlogs = 25, hasNextPage = False,
           hasPrevPage = False, pg_limit = Fin 10\<rparr>
   \<and> skip (getBlogs_paging (sample_query ''2abc'' ''10'')) = Some (Fin 10)"
  by (simp add: getBlogs_pagination_def getBlogs_paging_def number_eval)

text \<open>
  Where both readings of \<open>page\<close> give the same integer the relations hold, as for page 3
  of 25 blogs at 10 a page.
\<close>

lemma ceil_div_ceiling:
  "l \<noteq> 0 \<Longrightarrow> 0 \<le> cnt \<Longrightarrow> cnt + \<bar>l\<bar> \<le> 4503599627370496 \<Longrightarrow>
     ceil_div cnt (Fin l) = Some (Fin \<lceil>real_of_int cnt / real_of_int l\<rceil>)"
  by (simp add: ceiling_divide_eq_div)

lemma pagination_of_integer_page:
  assumes "qv_parseInt (with_default 1 (q_page q)) = Some (Fin p)"
    and "qv_toNumber (with_default 1 (q_page q)) = Some (Fin p)"
    and "qv_parseInt (with_default 10 (q_limit q)) = Some (Fin l)"
    and "0 < l" and "0 \<le> cnt" and "cnt + l \<le> 4503599627370496"
  shows "getBlogs_pagination q cnt =
           Some \<lparr>currentPage = Fin p,
                 totalPages = Fin \<lceil>real_of_int cnt / real_of_int l\<rceil>,
                 totalBlogs = cnt,
                 hasNextPage = (p < \<lceil>real_of_int cnt / real_of_int l\<rceil>),
                 hasPrevPage = (1 < p),
                 pg_limit = Fin l\<rparr>"
proof -
  have "ceil_div cnt (Fin l) = Some (Fin \<lceil>real_of_int cnt / real_of_int l\<rceil>)"
    using assms(4,5,6) by (intro ceil_div_ceiling) auto
  then show ?thesis using assms(1,2,3) by (simp add: getBlogs_pagination_def)
qed

lemma pagination_example:
  "getBlogs_pagination (sample_query ''3'' ''10'') 25
   = Some \<lparr>currentPage = Fin 3, totalPages = Fin 3, totalBlogs = 25, hasNextPage = False,
           hasPrevPage = True, pg_limit = Fin 10\<rparr>"
  by (simp add: getBlogs_pagination_def number_eval)

text \<open>
  Claim C6, as the code has it. Page and page size go into the query as parsed, with no
  clamping and no configured maximum: \<open>skip = (page - 1) * limit\<close> and
  \<open>limit = limit\<close>, for integers whose product stays within the exact range of a
  double.
\<close>

theorem C6_paging_not_clamped:
  assumes "qv_parseInt (with_default 1 (q_page q)) = Some (Fin p)"
    and "qv_parseInt (with_default 10 (q_limit q)) = Some (Fin l)"
    and "\<bar>p - 1\<bar> \<le> 9007199254740992" and "\<bar>(p - 1) * l\<bar> \<le> 9007199254740992"
  shows "skip (getBlogs_paging q) = Some (Fin ((p - 1) * l))
         \<and> limitNum (getBlogs_paging q) = Some (Fin l)"
  using assms by (simp add: getBlogs_paging_def exact_def)

text \<open>Witness for C6: page 3 with 10 per page skips 20.\<close>

theorem C6_page_three_witness:
  "qv_parseInt (with_default 1 (q_page (sample_query ''3'' ''10''))) = Some (Fin 3)
   \<and> qv_parseInt (with_default 10 (q_limit (sample_query ''3'' ''10''))) = Some (Fin 10)
   \<and> skip (getBlogs_paging (sample_query ''3'' ''10'')) = Some (Fin 20)
   \<and> limitNum (getBlogs_paging (sample_query ''3'' ''10'')) = Some (Fin 10)"
proof -
  have h: "qv_parseInt (with_default 1 (q_page (sample_query ''3'' ''10''))) = Some (Fin 3)"
    "qv_parseInt (with_default 10 (q_limit (sample_query ''3'' ''10''))) = Some (Fin 10)"
    by (simp_all add: number_eval)
  from C6_paging_not_clamped [OF h] h show ?thesis by simp
qed

text \<open>
  Counterexample to C6 as stated: page 0 gives a skip of -10, not 0, and a page size of
  1000000 is passed on as it is.
\<close>

theorem C6_no_clamping_counterexample:
  "skip (getBlogs_paging (sample_query ''0'' ''10'')) = Some (Fin (- 10))
   \<and> limitNum (getBlogs_paging (sample_query ''1'' ''1000000'')) = Some (Fin 1000000)"
  by (simp add: getBlogs_paging_def number_eval)

section \<open>Search\<close>

lemma escape_class_is_syntax: "in_escape_class c = syntax_character c"
  by (auto simp: in_escape_class_def syntax_character_def ustr_def)

lemma syntax_character_backslash: "syntax_character 92"
  by (simp add: syntax_character_def)

lemma regex_literal_step:
  "regex_literal ((if in_escape_class c then [92, c] else [c]) @ rest)
     = map_option ((#) c) (regex_literal rest)"
proof (cases "syntax_character c")
  case True
  then show ?thesis by (simp add: escape_class_is_syntax)
next
  case False
  then have "c \<noteq> 92" using syntax_character_backslash by auto
  with False show ?thesis by (simp add: escape_class_is_syntax)
qed

lemma regex_literal_escapeRegExp: "regex_literal (escapeRegExp s) = Some s"
proof (induction s)
  case Nil
  then show ?case by (simp add: escapeRegExp_def)
next
  case (Cons c s)
  have "escapeRegExp (c # s) = (if in_escape_class c then [92, c] else [c]) @ escapeRegExp s"
    by (simp add: escapeRegExp_def)
  then show ?case using Cons regex_literal_step [of c "escapeRegExp s"] by simp
qed

lemma regex_literal_searchRegex: "regex_literal (source (searchRegex s)) = Some (trim s)"
  by (simp add: searchRegex_def regex_literal_escapeRegExp)

lemma sublist_map_iff:
  "sublist (map f t) (map f field) = (\<exists>r. sublist r field \<and> map f r = map f t)"
proof
  assume "sublist (map f t) (map f field)"
  then obtain ps ss where e: "map f field = ps @ map f t @ ss" by (auto simp: sublist_def)
  then obtain a b where f1: "field = a @ b" "map f a = ps" "map f b = map f t @ ss"
    by (metis map_eq_append_conv)
  then obtain r c where f2: "b = r @ c" "map f r = map f t" "map f c = ss"
    by (metis map_eq_append_conv)
  from f1 f2 have "sublist r field" by (auto simp: sublist_def)
  with f2 show "\<exists>r. sublist r field \<and> map f r = map f t" by blast
next
  assume "\<exists>r. sublist r field \<and> map f r = map f t"
  then obtain r where r: "sublist r field" "map f r = map f t" by blast
  then obtain ps ss where "field = ps @ r @ ss" by (auto simp: sublist_def)
  then have "map f field = map f ps @ map f t @ map f ss" using r(2) by simp
  then show "sublist (map f t) (map f field)" by (auto simp: sublist_def)
qed

lemma regex_test_searchRegex:
  "regex_test canon (searchRegex s) field = Some (occurs_ci canon (trim s) field)"
  using regex_literal_searchRegex [of s]
  by (simp add: regex_test_def occurs_ci_def sublist_map_iff searchRegex_def)

text \<open>
  Claim C7, as the code has it. For every search term the pattern built uses no operator and
  spells the term trimmed of surrounding white space, and carries the flag \<open>i\<close>; so,
  whatever case mapping the engine applies, the search matches a blog exactly when the trimmed
  term occurs, up to that mapping, in its title, content, excerpt, one of its tags, or its
  category. The pattern is well formed for every term.
\<close>

theorem C7_trimmed_term_matched_literally:
  "regex_literal (source (searchRegex s)) = Some (trim s)
   \<and> flags (searchRegex s) = ''i''
   \<and> or_matches canon (searchRegex s) b =
       Some (occurs_ci canon (trim s) (title b)
             \<or> occurs_ci canon (trim s) (content b)
             \<or> (\<exists>e. excerpt b = Some e \<and> occurs_ci canon (trim s) e)
             \<or> (\<exists>t. t \<in> set (tags b) \<and> occurs_ci canon (trim s) t)
             \<or> occurs_ci canon (trim s) (category b))
   \<and> getBlogs_search q = (case q_search q of Some (c # cs) \<Rightarrow> Some (searchRegex (c # cs)) | _ \<Rightarrow> None)"
proof -
  have 1: "regex_literal (source (searchRegex s)) = Some (trim s)"
    by (rule regex_literal_searchRegex)
  have 2: "flags (searchRegex s) = ''i''" by (simp add: searchRegex_def)
  have 3: "or_matches canon (searchRegex s) b =
       Some (occurs_ci canon (trim s) (title b)
             \<or> occurs_ci canon (trim s) (content b)
             \<or> (\<exists>e. excerpt b = Some e \<and> occurs_ci canon (trim s) e)
             \<or> (\<exists>t. t \<in> set (tags b) \<and> occurs_ci canon (trim s) t)
             \<or> occurs_ci canon (trim s) (category b))"
    using 1 by (auto simp: or_matches_def regex_test_searchRegex list_ex_iff split: option.splits)
  have 4: "getBlogs_search q = (case q_search q of Some (c # cs) \<Rightarrow> Some (searchRegex (c # cs)) | _ \<Rightarrow> None)"
    by (simp add: getBlogs_search_def)
  from 1 2 3 4 show ?thesis by blast
qed

lemmas search_eval = or_matches_def regex_test_def searchRegex_def escapeRegExp_def
  in_escape_class_def syntax_character_def trim_def isWhiteSpace_def ascii_canon_def ustr_def
  sublist_code blogA_def blogB_def

text \<open>
  The term \<open>c++\<close> becomes \<open>c\+\+\<close>; unescaped it would be an operator pattern. It is
  found in the title of \<open>blogB\<close>, which contains \<open>C++\<close>, and not in \<open>blogA\<close>.
\<close>

lemma search_cpp_example:
  "source (searchRegex (ustr ''c++'')) = [99, 92, 43, 92, 43]
   \<and> regex_literal (ustr ''c++'') = None
   \<and> or_matches ascii_canon (searchRegex (ustr ''c++'')) blogB = Some True
   \<and> or_matches ascii_canon (searchRegex (ustr ''c++'')) blogA = Some False"
  by (simp add: search_eval)

text \<open>
  Counterexample to C7 as stated: the term made of a space and \<open>c\<close> matches
  \<open>blogA\<close>, none of whose fields contains it; what is matched is the trimmed term
  \<open>c\<close>.
\<close>

theorem C7_surrounding_space_counterexample:
  "or_matches ascii_canon (searchRegex (ustr '' c'')) blogA = Some True
   \<and> title blogA = ustr ''abc'' \<and> content blogA = ustr ''abc'' \<and> excerpt blogA = None
   \<and> tags blogA = [] \<and> category blogA = ustr ''abc''
   \<and> \<not> sublist (map ascii_canon (ustr '' c'')) (map ascii_canon (ustr ''abc''))
   \<and> \<not> sublist (ustr '' c'') (ustr ''abc'')"
  by (simp add: search_eval)

end
